theory Spec2Isabelle
  imports Main "HOL-Library.AList"
begin

section \<open>Strings\<close>

text \<open>
  JavaScript strings are modelled as \<^typ>\<open>string\<close>, one \<^typ>\<open>char\<close> per code unit
  below 256. The regular-expression literals of the source that carry the \<open>i\<close> flag only
  name ASCII letters, and without the \<open>u\<close> flag a non-ASCII code unit never folds onto an
  ASCII one, so ASCII case folding decides them.
\<close>

definition lowerChar :: "char \<Rightarrow> char" where
  "lowerChar c =
     (let n = (of_char c :: nat) in if 65 \<le> n \<and> n \<le> 90 then char_of (n + 32) else c)"

definition upperChar :: "char \<Rightarrow> char" where
  "upperChar c =
     (let n = (of_char c :: nat) in if 97 \<le> n \<and> n \<le> 122 then char_of (n - 32) else c)"

definition toLowerCase :: "string \<Rightarrow> string" where
  "toLowerCase s = map lowerChar s"

definition toUpperCase :: "string \<Rightarrow> string" where
  "toUpperCase s = map upperChar s"

definition startsWith :: "string \<Rightarrow> string \<Rightarrow> bool" where
  "startsWith s p = (take (length p) s = p)"

definition endsWith :: "string \<Rightarrow> string \<Rightarrow> bool" where
  "endsWith s p = (length p \<le> length s \<and> drop (length s - length p) s = p)"

text \<open>\<open>s.includes(p)\<close>: some position of \<open>s\<close> starts with \<open>p\<close>.\<close>

fun includesStr :: "string \<Rightarrow> string \<Rightarrow> bool" where
  "includesStr [] p = (p = [])"
| "includesStr (c # cs) p = (startsWith (c # cs) p \<or> includesStr cs p)"

text \<open>\<open>s.replace(/p/g, v)\<close> for a literal, non-empty \<open>p\<close> and a \<open>v\<close> without \<open>$\<close>.\<close>

fun replaceAll :: "string \<Rightarrow> string \<Rightarrow> string \<Rightarrow> string" where
  "replaceAll p v [] = []"
| "replaceAll p v (c # cs) =
     (if p \<noteq> [] \<and> startsWith (c # cs) p
      then v @ replaceAll p v (drop (length p) (c # cs))
      else c # replaceAll p v cs)"

text \<open>\<open>s.split(',')\<close>: the empty string splits into one empty piece.\<close>

primrec split :: "char \<Rightarrow> string \<Rightarrow> string list" where
  "split d [] = [[]]"
| "split d (c # cs) =
     (if c = d then [] # split d cs
      else (case split d cs of [] \<Rightarrow> [[c]] | w # ws \<Rightarrow> (c # w) # ws))"

definition isWhiteSpace :: "char \<Rightarrow> bool" where
  "isWhiteSpace c = ((of_char c :: nat) \<in> {9, 10, 11, 12, 13, 32, 160})"

definition trim :: "string \<Rightarrow> string" where
  "trim s = rev (dropWhile isWhiteSpace (rev (dropWhile isWhiteSpace s)))"

text \<open>\<open>new Set(xs)\<close> iterates in insertion order, keeping the first of equal elements.\<close>

definition newSet :: "'a list \<Rightarrow> 'a list" where
  "newSet xs = rev (remdups (rev xs))"

text \<open>JavaScript truthiness of a \<open>string | undefined | null\<close>.\<close>

fun truthy :: "string option \<Rightarrow> bool" where
  "truthy None = False"
| "truthy (Some v) = (v \<noteq> [])"

section \<open>Regular-expression literals of the source\<close>

text \<open>\<open>/\/index\.rsc$/i\<close>, \<open>/^\/(?:index)?$/i\<close>, \<open>/^\/__index\.prefetch\.rsc$/i\<close>,
  \<open>/\.rsc$/i\<close> and \<open>/\.prefetch\.rsc$/i\<close>; \<open>$\<close> without the \<open>m\<close> flag is the end of input.\<close>

definition isRscIndex :: "string \<Rightarrow> bool" where
  "isRscIndex p = endsWith (toLowerCase p) ''/index.rsc''"

definition isPrevAbsoluteIndex :: "string \<Rightarrow> bool" where
  "isPrevAbsoluteIndex p = (toLowerCase p = ''/'' \<or> toLowerCase p = ''/index'')"

definition isPrevPrefetchRscIndex :: "string \<Rightarrow> bool" where
  "isPrevPrefetchRscIndex p = (toLowerCase p = ''/__index.prefetch.rsc'')"

definition isRsc :: "string \<Rightarrow> bool" where
  "isRsc p = endsWith (toLowerCase p) ''.rsc''"

definition isPrefetchRsc :: "string \<Rightarrow> bool" where
  "isPrefetchRsc p = endsWith (toLowerCase p) ''.prefetch.rsc''"

text \<open>\<open>p.replace(/\.rsc/i, '')\<close>: without the \<open>g\<close> flag, the leftmost occurrence goes.\<close>

fun replaceRsc :: "string \<Rightarrow> string" where
  "replaceRsc [] = []"
| "replaceRsc (c # cs) =
     (if startsWith (toLowerCase (c # cs)) ''.rsc'' then drop 4 (c # cs)
      else c # replaceRsc cs)"

text \<open>\<open>p.replace(/\/$/, '')\<close>.\<close>

definition stripTrailingSlash :: "string \<Rightarrow> string" where
  "stripTrailingSlash p = (if endsWith p ''/'' then butlast p else p)"

text \<open>\<open>/^\^(.)*$/\<close>: a leading caret and no line terminator after it.\<close>

definition srcIsRegex :: "string \<Rightarrow> bool" where
  "srcIsRegex s =
     (case s of [] \<Rightarrow> False
      | c # cs \<Rightarrow> c = CHR ''^'' \<and> (\<forall>d \<in> set cs. (of_char d :: nat) \<noteq> 10 \<and> (of_char d :: nat) \<noteq> 13))"

text \<open>\<open>/\/(\(\.+\))+/\<close>: a slash, then a parenthesised run of dots.\<close>

definition interceptAt :: "string \<Rightarrow> bool" where
  "interceptAt s =
     (startsWith s ''/('' \<and>
      (let r = drop 2 s; t = dropWhile (\<lambda>c. c = CHR ''.'') r
       in r \<noteq> t \<and> startsWith t '')''))"

fun interceptRouteRegex :: "string \<Rightarrow> bool" where
  "interceptRouteRegex [] = False"
| "interceptRouteRegex (c # cs) = (interceptAt (c # cs) \<or> interceptRouteRegex cs)"

text \<open>\<open>src.replace(/\/\(\.\*\)\$$/, '(?:/(.*))?$')\<close>.\<close>

definition localeFriendlySrc :: "string \<Rightarrow> string" where
  "localeFriendlySrc s =
     (if endsWith s ''/(.*)$'' then take (length s - 6) s @ ''(?:/(.*))?$'' else s)"

section \<open>Header collections\<close>

text \<open>
  A \<open>Headers\<close> object: names are case-insensitive (kept lower-cased), one value per name.
  The platform's validation of names and values is outside the model.
\<close>

type_synonym Headers = "(string \<times> string) list"

definition hget :: "Headers \<Rightarrow> string \<Rightarrow> string option" where
  "hget h k = map_of h (toLowerCase k)"

definition hhas :: "Headers \<Rightarrow> string \<Rightarrow> bool" where
  "hhas h k = (hget h k \<noteq> None)"

definition hset :: "Headers \<Rightarrow> string \<Rightarrow> string \<Rightarrow> Headers" where
  "hset h k v = AList.update (toLowerCase k) v h"

definition hdelete :: "Headers \<Rightarrow> string \<Rightarrow> Headers" where
  "hdelete h k = AList.delete (toLowerCase k) h"

section \<open>Data model\<close>

type_synonym URLSearchParams = "(string \<times> string) list"

record URL =
  href :: string
  hostname :: string
  pathname :: string
  urlSearchParams :: URLSearchParams

datatype VercelPhase = none | filesystem | rewrite | resource | miss | hit | error

datatype CheckRouteStatus = Skip | Next | Done | Error

text \<open>\<open>body: BodyInit | undefined | null\<close>; a middleware's \<open>resp.body\<close> is a stream or null.\<close>

datatype Body = BodyUndefined | BodyNull | BodyStream string

record Response =
  respStatus :: int
  respHeaders :: Headers
  respBody :: Body

record VercelBuildOutputItem =
  itemType :: string
  entrypoint :: string

record VercelHasField =
  hasType :: string
  hasKey :: "string option"
  hasValue :: "string option"

record VercelLocale =
  redirect :: "(string \<rightharpoonup> string) option"
  cookie :: "string option"

text \<open>
  A route rule (\<open>VercelSource\<close>). The fields \<open>headers\<close>, \<open>status\<close>, \<open>important\<close> and
  \<open>locale\<close> carry the prefix \<open>route\<close> because the matcher has fields of the same names
  (and \<open>locale\<close> is reserved). An absent boolean is \<open>False\<close>, an absent list of conditions
  is empty.
\<close>

record VercelSource =
  src :: string
  dest :: "string option"
  routeHeaders :: "(string \<times> string) list option"
  methods :: "string list option"
  has :: "VercelHasField list"
  missing :: "VercelHasField list"
  continue :: bool
  override :: bool
  routeImportant :: bool
  caseSensitive :: "bool option"
  middlewarePath :: "string option"
  routeLocale :: "VercelLocale option"
  check :: bool
  routeStatus :: "int option"

type_synonym RegExpMatchArray = "string option list"

record MatchPCREResult =
  match :: "RegExpMatchArray option"
  captureGroupKeys :: "string list"

record HasFieldProps =
  propsUrl :: URL
  propsCookies :: "string \<rightharpoonup> string"
  propsHeaders :: Headers
  routeDest :: "string option"

record MatchedSetHeaders =
  normal :: Headers
  important :: Headers
  middlewareLocation :: "string option"

text \<open>
  The fields of \<open>RoutesMatcher\<close> that the class assigns once, in its constructor, and the
  request's method.
\<close>

record Config =
  routes :: "VercelPhase \<Rightarrow> VercelSource list"
  buildOutput :: "string \<rightharpoonup> VercelBuildOutputItem"
  url :: URL
  cookies :: "string \<rightharpoonup> string"
  wildcardMatch :: "string option"
  locales :: "string list"
  requestMethod :: string

text \<open>
  The fields the class mutates, with the headers of \<open>reqCtx.request\<close>, which
  \<open>processMiddlewareResp\<close> overwrites. \<open>middlewareLocation\<close> is \<open>None\<close> for both
  \<open>undefined\<close> and \<open>null\<close>.
\<close>

record RoutesMatcher =
  requestHeaders :: Headers
  path :: string
  status :: "int option"
  headers :: MatchedSetHeaders
  searchParams :: URLSearchParams
  body :: Body
  checkPhaseCounter :: nat
  middlewareInvoked :: "string list"

text \<open>
  What the file imports from \<open>./utils\<close> and takes from the platform, as parameters:
  the PCRE matcher and substitution, the query merge, the condition evaluator, the phase
  successor, the absolute-URL test, the accept-language parser, the locale-regex test,
  the artifact runtime, \<open>new URL(x, base)\<close>, and the first group of
  \<open>new RegExp(source).exec(input)\<close>.
\<close>

record Utils =
  matchPCRE :: "string \<Rightarrow> string \<Rightarrow> bool option \<Rightarrow> MatchPCREResult"
  applyPCREMatches :: "string \<Rightarrow> RegExpMatchArray \<Rightarrow> string list \<Rightarrow> string"
  applySearchParams :: "URLSearchParams \<Rightarrow> URLSearchParams \<Rightarrow> URLSearchParams"
  checkhasField :: "VercelHasField \<Rightarrow> HasFieldProps \<Rightarrow> bool \<times> string option"
  getNextPhase :: "VercelPhase \<Rightarrow> VercelPhase"
  isUrl :: "string \<Rightarrow> bool"
  parseAcceptLanguage :: "string \<Rightarrow> string list"
  isLocaleTrailingSlashRegex :: "string \<Rightarrow> string list \<Rightarrow> bool"
  runOrFetchBuildOutputItem ::
    "VercelBuildOutputItem \<Rightarrow> string \<times> Headers \<Rightarrow>
     string \<times> URLSearchParams \<times> MatchedSetHeaders \<times> int option \<Rightarrow> Response"
  newURL :: "string \<Rightarrow> URL \<Rightarrow> URL"
  regExpGroup1 :: "string \<Rightarrow> string \<Rightarrow> string option"

section \<open>Helpers that the source imports\<close>

text \<open>
  Modelled from the spec: \<open>applyHeaders\<close> of \<open>./utils\<close>, which is not among the sources.
  The spec has header values "first capture-substituted the same way as destinations, then
  merged into" the target collection; a source without a match is merged as it is.
\<close>

definition applyHeaders ::
  "Utils \<Rightarrow> Headers \<Rightarrow> (string \<times> string) list \<Rightarrow>
   (RegExpMatchArray \<times> string list) option \<Rightarrow> Headers" where
  "applyHeaders E target source pcreMatch =
     foldl (\<lambda>t (key, val).
        hset t key (case pcreMatch of None \<Rightarrow> val
                    | Some (m, ks) \<Rightarrow> applyPCREMatches E val m ks)) target source"

text \<open>
  Modelled from the spec: the caller of the matcher, which is not among the sources, combines
  the two collections into the final response; "important wins on conflict when both set
  the same key".
\<close>

definition finalHeader :: "MatchedSetHeaders \<Rightarrow> string \<Rightarrow> string option" where
  "finalHeader h k = (case hget (important h) k of Some v \<Rightarrow> Some v | None \<Rightarrow> hget (normal h) k)"

section \<open>The routes matcher\<close>

subsection \<open>checkRouteMatch\<close>

text \<open>\<open>route.has?.find(...)\<close>: whether a condition fails, with the properties as updated.\<close>

fun findInvalidHas :: "Utils \<Rightarrow> VercelHasField list \<Rightarrow> HasFieldProps \<Rightarrow> bool \<times> HasFieldProps" where
  "findInvalidHas E [] props = (False, props)"
| "findInvalidHas E (h # hs) props =
     (let (valid, newRouteDest) = checkhasField E h props;
          props' = (if truthy newRouteDest then props\<lparr>routeDest := newRouteDest\<rparr> else props)
      in if \<not> valid then (True, props') else findInvalidHas E hs props')"

definition checkRouteMatch ::
  "Utils \<Rightarrow> Config \<Rightarrow> VercelSource \<Rightarrow> bool \<Rightarrow> bool \<Rightarrow> RoutesMatcher \<Rightarrow>
   (RegExpMatchArray \<times> string list \<times> string option) option" where
  "checkRouteMatch E C route checkStatus checkIntercept s =
     (let srcMatch = matchPCRE E (src route) (path s) (caseSensitive route) in
      case match srcMatch of None \<Rightarrow> None
      | Some m \<Rightarrow>
        if (case methods route of None \<Rightarrow> False
            | Some ms \<Rightarrow> toUpperCase (requestMethod C) \<notin> set (map toUpperCase ms))
        then None
        else
          let hasFieldProps = \<lparr>propsUrl = url C, propsCookies = cookies C,
                                propsHeaders = requestHeaders s, routeDest = dest route\<rparr>;
              (invalid, hasFieldProps') = findInvalidHas E (has route) hasFieldProps
          in if invalid then None
             else if \<exists>h \<in> set (missing route). fst (checkhasField E h hasFieldProps') then None
             else if checkStatus \<and> routeStatus route \<noteq> status s then None
             else if checkIntercept \<and> truthy (dest route)
                     \<and> interceptRouteRegex (the (dest route))
                     \<and> \<not> interceptRouteRegex (path s) then None
             else Some (m, captureGroupKeys srcMatch, routeDest hasFieldProps'))"

subsection \<open>processMiddlewareResp\<close>

text \<open>One turn of the loop over the overridden header keys: request headers and response.\<close>

definition overrideHeader :: "string \<Rightarrow> Headers \<times> Response \<Rightarrow> Headers \<times> Response" where
  "overrideHeader key st =
     (let (reqH, resp) = st;
          valueKey = ''x-middleware-request-'' @ key;
          val = hget (respHeaders resp) valueKey;
          reqH' = (if hget reqH key \<noteq> val
                   then (if truthy val then hset reqH key (the val) else hdelete reqH key)
                   else reqH)
      in (reqH', resp\<lparr>respHeaders := hdelete (respHeaders resp) valueKey\<rparr>))"

text \<open>The response is mutated too, so it is returned with the matcher.\<close>

definition processMiddlewareResp ::
  "Utils \<Rightarrow> Config \<Rightarrow> Response \<Rightarrow> RoutesMatcher \<Rightarrow> Response \<times> RoutesMatcher" where
  "processMiddlewareResp E C resp0 s0 =
     (let overrideKey = ''x-middleware-override-headers'';
          overrideHdr = hget (respHeaders resp0) overrideKey;
          (reqH1, resp1) =
            (if truthy overrideHdr
             then (let overridenHeaderKeys = newSet (map trim (split CHR '','' (the overrideHdr)));
                       (rh, rp) = fold overrideHeader overridenHeaderKeys (requestHeaders s0, resp0)
                   in (rh, rp\<lparr>respHeaders := hdelete (respHeaders rp) overrideKey\<rparr>))
             else (requestHeaders s0, resp0));
          s1 = s0\<lparr>requestHeaders := reqH1\<rparr>;
          rewriteKey = ''x-middleware-rewrite'';
          rewriteHeader = hget (respHeaders resp1) rewriteKey;
          (resp2, s2) =
            (if truthy rewriteHeader
             then (let newUrl = newURL E (the rewriteHeader) (url C);
                       rewriteIsExternal = (hostname (url C) \<noteq> hostname newUrl)
                   in (resp1\<lparr>respHeaders := hdelete (respHeaders resp1) rewriteKey\<rparr>,
                       s1\<lparr>path := (if rewriteIsExternal then href newUrl else pathname newUrl),
                          searchParams :=
                            applySearchParams E (searchParams s1) (urlSearchParams newUrl)\<rparr>))
             else (resp1, s1));
          middlewareNextKey = ''x-middleware-next'';
          middlewareNextHeader = hget (respHeaders resp2) middlewareNextKey;
          (resp3, s3) =
            (if truthy middlewareNextHeader
             then (resp2\<lparr>respHeaders := hdelete (respHeaders resp2) middlewareNextKey\<rparr>, s2)
             else if \<not> truthy rewriteHeader \<and> \<not> hhas (respHeaders resp2) ''location''
             then (resp2, s2\<lparr>body := respBody resp2, status := Some (respStatus resp2)\<rparr>)
             else if hhas (respHeaders resp2) ''location''
                     \<and> 300 \<le> respStatus resp2 \<and> respStatus resp2 < 400
             then (resp2, s2\<lparr>status := Some (respStatus resp2)\<rparr>)
             else (resp2, s2))
      in (resp3,
          s3\<lparr>requestHeaders := applyHeaders E (requestHeaders s3) (respHeaders resp3) None,
             headers := (headers s3)
               \<lparr>normal := applyHeaders E (normal (headers s3)) (respHeaders resp3) None,
                middlewareLocation := hget (respHeaders resp3) ''location''\<rparr>\<rparr>))"

subsection \<open>runRouteMiddleware\<close>

definition runRouteMiddleware ::
  "Utils \<Rightarrow> Config \<Rightarrow> string option \<Rightarrow> RoutesMatcher \<Rightarrow> bool \<times> RoutesMatcher" where
  "runRouteMiddleware E C mpath s =
     (if \<not> truthy mpath then (True, s)
      else
        let p = the mpath in
        case buildOutput C p of
          None \<Rightarrow> (False, s\<lparr>status := Some 500\<rparr>)
        | Some item \<Rightarrow>
            if itemType item \<noteq> ''middleware'' then (False, s\<lparr>status := Some 500\<rparr>)
            else
              let resp = runOrFetchBuildOutputItem E item (requestMethod C, requestHeaders s)
                           (path s, searchParams s, headers s, status s);
                  s1 = s\<lparr>middlewareInvoked := middlewareInvoked s @ [p]\<rparr>
              in if respStatus resp = 500 then (False, s1\<lparr>status := Some (respStatus resp)\<rparr>)
                 else (True, snd (processMiddlewareResp E C resp s1)))"

subsection \<open>The effects of a matched rule\<close>

definition applyRouteOverrides :: "VercelSource \<Rightarrow> RoutesMatcher \<Rightarrow> RoutesMatcher" where
  "applyRouteOverrides route s =
     (if \<not> override route then s
      else s\<lparr>status := None, headers := (headers s)\<lparr>normal := [], important := []\<rparr>\<rparr>)"

definition applyRouteHeaders ::
  "Utils \<Rightarrow> VercelSource \<Rightarrow> RegExpMatchArray \<Rightarrow> string list \<Rightarrow> RoutesMatcher \<Rightarrow> RoutesMatcher" where
  "applyRouteHeaders E route srcMatch ks s =
     (case routeHeaders route of None \<Rightarrow> s
      | Some hs \<Rightarrow>
        let s1 = s\<lparr>headers := (headers s)
                     \<lparr>normal := applyHeaders E (normal (headers s)) hs (Some (srcMatch, ks))\<rparr>\<rparr>
        in if routeImportant route
           then s1\<lparr>headers := (headers s1)
                     \<lparr>important := applyHeaders E (important (headers s1)) hs (Some (srcMatch, ks))\<rparr>\<rparr>
           else s1)"

definition applyRouteStatus :: "VercelSource \<Rightarrow> RoutesMatcher \<Rightarrow> RoutesMatcher" where
  "applyRouteStatus route s =
     (case routeStatus route of None \<Rightarrow> s
      | Some st \<Rightarrow> if st = 0 then s else s\<lparr>status := Some st\<rparr>)"

text \<open>Lines 367 to 372: the correction for \<open>/index\<close> RSC routes.\<close>

definition rscIndexCorrection :: "string \<Rightarrow> string \<Rightarrow> string" where
  "rscIndexCorrection prevPath p =
     (if isRscIndex p \<and> \<not> isPrevAbsoluteIndex prevPath \<and> \<not> isPrevPrefetchRscIndex prevPath
      then prevPath else p)"

text \<open>Lines 378 to 383: the correction for \<open>.rsc\<close> requests.\<close>

definition rscExtensionStrip :: "(string \<rightharpoonup> VercelBuildOutputItem) \<Rightarrow> string \<Rightarrow> string" where
  "rscExtensionStrip out p =
     (if isRsc p \<and> \<not> isPrefetchRsc p \<and> out p = None then replaceRsc p else p)"

text \<open>Lines 385 to 392: the query merge and the path of a destination that is no URL.\<close>

definition resolveDest :: "Utils \<Rightarrow> Config \<Rightarrow> string \<Rightarrow> RoutesMatcher \<Rightarrow> RoutesMatcher" where
  "resolveDest E C p s =
     (let destUrl = newURL E p (url C)
      in s\<lparr>path := (if \<not> isUrl E p then pathname destUrl else p),
           searchParams := applySearchParams E (searchParams s) (urlSearchParams destUrl)\<rparr>)"

text \<open>Lines 349 to 359: the destination with its wildcard and its captures substituted.\<close>

definition processedDest ::
  "Utils \<Rightarrow> Config \<Rightarrow> string \<Rightarrow> RegExpMatchArray \<Rightarrow> string list \<Rightarrow> string" where
  "processedDest E C d srcMatch ks =
     applyPCREMatches E
       (case wildcardMatch C of None \<Rightarrow> d
        | Some w \<Rightarrow> if includesStr d ''$wildcard'' then replaceAll ''$wildcard'' w d else d)
       srcMatch ks"

definition applyRouteDest ::
  "Utils \<Rightarrow> Config \<Rightarrow> VercelSource \<Rightarrow> RegExpMatchArray \<Rightarrow> string list \<Rightarrow> RoutesMatcher \<Rightarrow>
   string \<times> RoutesMatcher" where
  "applyRouteDest E C route srcMatch ks s =
     (if \<not> truthy (dest route) then (path s, s)
      else
        let prevPath = path s;
            p1 = processedDest E C (the (dest route)) srcMatch ks;
            p2 = rscIndexCorrection prevPath p1;
            p3 = rscExtensionStrip (buildOutput C) p2
        in (prevPath, resolveDest E C p3 s))"

definition applyLocaleRedirects ::
  "Utils \<Rightarrow> Config \<Rightarrow> VercelSource \<Rightarrow> RoutesMatcher \<Rightarrow> RoutesMatcher" where
  "applyLocaleRedirects E C route s =
     (case routeLocale route of None \<Rightarrow> s
      | Some lc \<Rightarrow>
        (case redirect lc of None \<Rightarrow> s
         | Some redirects \<Rightarrow>
           if \<not> srcIsRegex (src route) \<and> src route \<noteq> path s then s
           else if hhas (normal (headers s)) ''location'' then s
           else
             let cookieValue = (case cookie lc of None \<Rightarrow> None
                                | Some cookieName \<Rightarrow>
                                    if cookieName = [] then Some [] else cookies C cookieName);
                 cookieLocales =
                   parseAcceptLanguage E (case cookieValue of None \<Rightarrow> [] | Some v \<Rightarrow> v);
                 headerLocales =
                   parseAcceptLanguage E
                     (case hget (requestHeaders s) ''accept-language'' of None \<Rightarrow> [] | Some v \<Rightarrow> v);
                 locs = cookieLocales @ headerLocales;
                 redirectLocales = map the (filter truthy (map redirects locs))
             in case redirectLocales of [] \<Rightarrow> s
                | redirectValue # _ \<Rightarrow>
                    if \<not> startsWith (path s) redirectValue
                    then s\<lparr>headers := (headers s)
                             \<lparr>normal := hset (normal (headers s)) ''location'' redirectValue\<rparr>,
                           status := Some 307\<rparr>
                    else s))"

definition getLocaleFriendlyRoute ::
  "Utils \<Rightarrow> Config \<Rightarrow> VercelSource \<Rightarrow> VercelPhase \<Rightarrow> VercelSource" where
  "getLocaleFriendlyRoute E C route phase =
     (if phase \<noteq> miss then route
      else if isLocaleTrailingSlashRegex E (src route) (locales C)
      then route\<lparr>src := localeFriendlySrc (src route)\<rparr>
      else route)"

subsection \<open>checkRoute\<close>

text \<open>
  The recursion of \<open>checkRoute\<close> and \<open>checkPhase\<close> through each other is bounded by the
  counter, which lives in the state. The model takes \<open>this.checkPhase\<close> as the parameter
  \<open>checkPhase'\<close> and recurses on a fuel; \<open>None\<close> is a run that the fuel did not cover.
\<close>

type_synonym 'a outcome = "('a \<times> RoutesMatcher) option"

text \<open>Lines 566 to 578: what \<open>checkRoute\<close> returns when it does not enter another phase.\<close>

definition routeResult :: "VercelSource \<Rightarrow> CheckRouteStatus" where
  "routeResult route =
     (if \<not> continue route then Done
      else if (case routeStatus route of None \<Rightarrow> False | Some st \<Rightarrow> 300 \<le> st \<and> st \<le> 399)
      then Done
      else Next)"

text \<open>Lines 532 to 578, after the destination is applied.\<close>

definition checkRouteCheck ::
  "Utils \<Rightarrow> Config \<Rightarrow> (VercelPhase \<Rightarrow> RoutesMatcher \<Rightarrow> CheckRouteStatus outcome) \<Rightarrow>
   VercelPhase \<Rightarrow> VercelSource \<Rightarrow> string \<Rightarrow> RoutesMatcher \<Rightarrow> CheckRouteStatus outcome" where
  "checkRouteCheck E C checkPhase' phase route prevPath s =
     (if check route \<and> \<not> isUrl E (path s) then
        if prevPath = path s then
          if phase \<noteq> miss then checkPhase' (getNextPhase E phase) s
          else Some (routeResult route, s\<lparr>status := Some 404\<rparr>)
        else if phase = miss then
          if buildOutput C (path s) = None \<and> buildOutput C (stripTrailingSlash (path s)) = None
          then checkPhase' filesystem s
          else Some (routeResult route, if status s = Some 404 then s\<lparr>status := None\<rparr> else s)
        else checkPhase' none s
      else Some (routeResult route, s))"

definition checkRoute ::
  "Utils \<Rightarrow> Config \<Rightarrow> (VercelPhase \<Rightarrow> RoutesMatcher \<Rightarrow> CheckRouteStatus outcome) \<Rightarrow>
   VercelPhase \<Rightarrow> VercelSource \<Rightarrow> RoutesMatcher \<Rightarrow> CheckRouteStatus outcome" where
  "checkRoute E C checkPhase' phase rawRoute s =
     (let localeFriendlyRoute = getLocaleFriendlyRoute E C rawRoute phase in
      case checkRouteMatch E C localeFriendlyRoute (phase = error) (phase = rewrite) s of
        None \<Rightarrow> Some (Skip, s)
      | Some (srcMatch, ks, routeDest') \<Rightarrow>
          let route = localeFriendlyRoute\<lparr>dest := routeDest'\<rparr> in
          if truthy (middlewarePath route) \<and> the (middlewarePath route) \<in> set (middlewareInvoked s)
          then Some (Skip, s)
          else
            let s1 = applyRouteOverrides route s;
                s2 = applyLocaleRedirects E C route s1;
                (success, s3) = runRouteMiddleware E C (middlewarePath route) s2
            in if \<not> success then Some (Error, s3)
               else if body s3 \<noteq> BodyUndefined \<or> truthy (middlewareLocation (headers s3))
               then Some (Done, s3)
               else
                 let s4 = applyRouteHeaders E route srcMatch ks s3;
                     s5 = applyRouteStatus route s4;
                     (prevPath, s6) = applyRouteDest E C route srcMatch ks s5
                 in checkRouteCheck E C checkPhase' phase route prevPath s6)"

subsection \<open>checkPhase\<close>

text \<open>The loop over the rules of a phase, and how it was left.\<close>

datatype LoopExit = ReturnError | Break | Exhausted

fun checkRoutes ::
  "Utils \<Rightarrow> Config \<Rightarrow> (VercelPhase \<Rightarrow> RoutesMatcher \<Rightarrow> CheckRouteStatus outcome) \<Rightarrow>
   VercelPhase \<Rightarrow> VercelSource list \<Rightarrow> RoutesMatcher \<Rightarrow> LoopExit outcome" where
  "checkRoutes E C checkPhase' phase [] s = Some (Exhausted, s)"
| "checkRoutes E C checkPhase' phase (route # rest) s =
     (case checkRoute E C checkPhase' phase route s of
        None \<Rightarrow> None
      | Some (result, s') \<Rightarrow>
          if result = Error then Some (ReturnError, s')
          else if result = Done then Some (Break, s')
          else checkRoutes E C checkPhase' phase rest s')"

text \<open>Lines 629 to 637: the first known locale whose remainder is an artifact.\<close>

fun pathWithoutLocale ::
  "Utils \<Rightarrow> (string \<rightharpoonup> VercelBuildOutputItem) \<Rightarrow> string list \<Rightarrow> string \<Rightarrow> string" where
  "pathWithoutLocale E out [] p = p"
| "pathWithoutLocale E out (l # ls) p =
     (let m = regExpGroup1 E (''/'' @ l @ ''(/.*)'') p
      in if truthy m \<and> out (the m) \<noteq> None then the m else pathWithoutLocale E out ls p)"

text \<open>Lines 624 to 638: in the \<open>none\<close> phase, a known locale is taken off the path.\<close>

definition localeFixup :: "Utils \<Rightarrow> Config \<Rightarrow> VercelPhase \<Rightarrow> RoutesMatcher \<Rightarrow> RoutesMatcher" where
  "localeFixup E C phase s =
     (if phase = none
      then s\<lparr>path := pathWithoutLocale E (buildOutput C) (locales C) (path s)\<rparr>
      else s)"

text \<open>Lines 640 to 650: the value of \<open>pathExistsInOutput\<close>, and the path without its slash.\<close>

definition pathExistsInOutput :: "Config \<Rightarrow> RoutesMatcher \<Rightarrow> bool" where
  "pathExistsInOutput C s =
     (buildOutput C (path s) \<noteq> None
      \<or> (endsWith (path s) ''/'' \<and> buildOutput C (stripTrailingSlash (path s)) \<noteq> None))"

definition trailingSlashFixup :: "Config \<Rightarrow> RoutesMatcher \<Rightarrow> RoutesMatcher" where
  "trailingSlashFixup C s =
     (if buildOutput C (path s) = None \<and> endsWith (path s) ''/''
         \<and> buildOutput C (stripTrailingSlash (path s)) \<noteq> None
      then s\<lparr>path := stripTrailingSlash (path s)\<rparr>
      else s)"

text \<open>Lines 652 to 656: the 404 of the \<open>miss\<close> phase.\<close>

definition missStatus :: "VercelPhase \<Rightarrow> bool \<Rightarrow> RoutesMatcher \<Rightarrow> RoutesMatcher" where
  "missStatus phase pathExists s =
     (if phase = miss \<and> \<not> pathExists
      then (let should404 = (case status s of None \<Rightarrow> True | Some st \<Rightarrow> st = 0 \<or> st < 400)
            in s\<lparr>status := (if should404 then Some 404 else status s)\<rparr>)
      else s)"

text \<open>Lines 658 to 665.\<close>

definition nextPhase :: "Utils \<Rightarrow> VercelPhase \<Rightarrow> bool \<Rightarrow> bool \<Rightarrow> VercelPhase" where
  "nextPhase E phase pathExists shouldContinue =
     (if pathExists \<or> phase = miss \<or> phase = error then hit
      else if shouldContinue then getNextPhase E phase
      else miss)"

text \<open>Lines 614 to 667, after the loop.\<close>

definition checkPhaseNext ::
  "Utils \<Rightarrow> Config \<Rightarrow> (VercelPhase \<Rightarrow> RoutesMatcher \<Rightarrow> CheckRouteStatus outcome) \<Rightarrow>
   VercelPhase \<Rightarrow> bool \<Rightarrow> RoutesMatcher \<Rightarrow> CheckRouteStatus outcome" where
  "checkPhaseNext E C checkPhase' phase shouldContinue s =
     (if phase = hit \<or> isUrl E (path s) \<or> hhas (normal (headers s)) ''location''
         \<or> (case body s of BodyStream _ \<Rightarrow> True | _ \<Rightarrow> False)
      then Some (Done, s)
      else
        let s1 = localeFixup E C phase s;
            pathExists = pathExistsInOutput C s1;
            s2 = trailingSlashFixup C s1;
            s3 = missStatus phase pathExists s2
        in checkPhase' (nextPhase E phase pathExists shouldContinue) s3)"

definition checkPhaseBody ::
  "Utils \<Rightarrow> Config \<Rightarrow> (VercelPhase \<Rightarrow> RoutesMatcher \<Rightarrow> CheckRouteStatus outcome) \<Rightarrow>
   VercelPhase \<Rightarrow> RoutesMatcher \<Rightarrow> CheckRouteStatus outcome" where
  "checkPhaseBody E C checkPhase' phase s =
     (if checkPhaseCounter s \<ge> 50
      then Some (Error, s\<lparr>checkPhaseCounter := checkPhaseCounter s + 1, status := Some 500\<rparr>)
      else
        case checkRoutes E C checkPhase' phase (routes C phase)
               (s\<lparr>checkPhaseCounter := checkPhaseCounter s + 1, middlewareInvoked := []\<rparr>) of
          None \<Rightarrow> None
        | Some (ReturnError, s') \<Rightarrow> Some (Error, s')
        | Some (Break, s') \<Rightarrow> checkPhaseNext E C checkPhase' phase False s'
        | Some (Exhausted, s') \<Rightarrow> checkPhaseNext E C checkPhase' phase True s')"

primrec checkPhase ::
  "Utils \<Rightarrow> Config \<Rightarrow> nat \<Rightarrow> VercelPhase \<Rightarrow> RoutesMatcher \<Rightarrow> CheckRouteStatus outcome" where
  "checkPhase E C 0 phase s = None"
| "checkPhase E C (Suc fuel) phase s = checkPhaseBody E C (checkPhase E C fuel) phase s"

subsection \<open>run\<close>

text \<open>
  A run enters \<open>checkPhase\<close> at most 51 times, as is proved below, so the fuel 51 covers
  every run.
\<close>

definition run :: "Utils \<Rightarrow> Config \<Rightarrow> VercelPhase \<Rightarrow> RoutesMatcher \<Rightarrow> CheckRouteStatus outcome" where
  "run E C phase s =
     (case checkPhase E C 51 phase (s\<lparr>checkPhaseCounter := 0\<rparr>) of
        None \<Rightarrow> None
      | Some (result, s') \<Rightarrow>
          Some (result,
            if hhas (normal (headers s')) ''location''
               \<and> (case status s' of None \<Rightarrow> True | Some st \<Rightarrow> st = 0 \<or> st < 300 \<or> st \<ge> 400)
            then s'\<lparr>status := Some 307\<rparr> else s'))"

section \<open>The locale choice in the spec's words\<close>


section \<open>Concrete collaborators for the examples\<close>

text \<open>
  Modelled from the spec: \<open>getNextPhase\<close> of \<open>./utils\<close>, which is not among the sources.
  The spec's order is \<open>none\<close>, \<open>filesystem\<close>, \<open>rewrite\<close>, \<open>resource\<close>, \<open>miss\<close>; it gives \<open>hit\<close>
  and \<open>error\<close> no successor, and the examples never ask for one.
\<close>

fun specGetNextPhase :: "VercelPhase \<Rightarrow> VercelPhase" where
  "specGetNextPhase none = filesystem"
| "specGetNextPhase filesystem = rewrite"
| "specGetNextPhase rewrite = resource"
| "specGetNextPhase resource = miss"
| "specGetNextPhase phase = miss"

text \<open>
  Modelled from the spec: \<open>isUrl\<close> of \<open>./utils\<close>, which is not among the sources; the spec
  speaks of "an absolute external URL".
\<close>

definition specIsUrl :: "string \<Rightarrow> bool" where
  "specIsUrl p = (startsWith p ''http://'' \<or> startsWith p ''https://'')"

text \<open>
  A matcher for the patterns \<open>^lit$\<close> (the whole path is \<open>lit\<close>) and \<open>^lit\<close> (the path
  starts with \<open>lit\<close>), \<open>lit\<close> free of metacharacters; on such patterns and lower-case
  paths it is what a PCRE engine answers, with no capture groups.
\<close>

definition literalMatchPCRE :: "string \<Rightarrow> string \<Rightarrow> bool option \<Rightarrow> MatchPCREResult" where
  "literalMatchPCRE pat p cs =
     (let noMatch = \<lparr>match = None, captureGroupKeys = []\<rparr>;
          matched = (\<lambda>m. \<lparr>match = Some [Some m], captureGroupKeys = []\<rparr>)
      in case pat of [] \<Rightarrow> noMatch
         | c # lit \<Rightarrow>
             if c \<noteq> CHR ''^'' then noMatch
             else if endsWith lit ''$'' then (if p = butlast lit then matched p else noMatch)
             else if startsWith p lit then matched lit else noMatch)"

text \<open>
  \<open>new URL(x, base)\<close> for an \<open>x\<close> that is \<open>https://host/path\<close> or an absolute path,
  without query, fragment or dot segments.
\<close>

definition simpleNewURL :: "string \<Rightarrow> URL \<Rightarrow> URL" where
  "simpleNewURL x base =
     (if startsWith x ''https://''
      then (let rest = drop 8 x;
                host = takeWhile (\<lambda>c. c \<noteq> CHR ''/'') rest;
                pth = dropWhile (\<lambda>c. c \<noteq> CHR ''/'') rest
            in \<lparr>href = (if pth = [] then x @ ''/'' else x), hostname = host,
                pathname = (if pth = [] then ''/'' else pth), urlSearchParams = []\<rparr>)
      else \<lparr>href = ''https://'' @ hostname base @ x, hostname = hostname base,
            pathname = x, urlSearchParams = []\<rparr>)"

text \<open>
  The collaborators of the examples: destinations and header values without \<open>$\<close> are
  their own substitution, there are no conditions and no known locales, a cookie or
  header value naming one locale parses to that locale, and every middleware answers
  \<open>resp\<close>.
\<close>

definition exampleUtils :: "Response \<Rightarrow> Utils" where
  "exampleUtils resp =
     \<lparr>matchPCRE = literalMatchPCRE,
      applyPCREMatches = (\<lambda>d m ks. d),
      applySearchParams = (\<lambda>target source. target @ source),
      checkhasField = (\<lambda>h props. (True, None)),
      getNextPhase = specGetNextPhase,
      isUrl = specIsUrl,
      parseAcceptLanguage = (\<lambda>v. if v = [] then [] else [v]),
      isLocaleTrailingSlashRegex = (\<lambda>s ls. False),
      runOrFetchBuildOutputItem = (\<lambda>item req ctx. resp),
      newURL = simpleNewURL,
      regExpGroup1 = (\<lambda>source input. None)\<rparr>"

definition okResponse :: Response where
  "okResponse = \<lparr>respStatus = 200, respHeaders = [(''x-middleware-next'', ''1'')], respBody = BodyNull\<rparr>"


text \<open>A rule with a source pattern and nothing else.\<close>

definition rule :: "string \<Rightarrow> VercelSource" where
  "rule pat =
     \<lparr>src = pat, dest = None, routeHeaders = None, methods = None, has = [], missing = [],
      continue = False, override = False, routeImportant = False, caseSensitive = None,
      middlewarePath = None, routeLocale = None, check = False, routeStatus = None\<rparr>"

text \<open>
  A \<open>GET\<close> request to \<open>https://example.com\<close> with the given cookies, against a route table
  that has rules in the \<open>none\<close> phase only.
\<close>

definition exampleConfig ::
  "VercelSource list \<Rightarrow> (string \<times> VercelBuildOutputItem) list \<Rightarrow> (string \<times> string) list \<Rightarrow>
   string \<Rightarrow> Config" where
  "exampleConfig rs out cs p =
     \<lparr>routes = (\<lambda>phase. if phase = none then rs else []),
      buildOutput = map_of out,
      url = \<lparr>href = ''https://example.com'' @ p, hostname = ''example.com'', pathname = p,
             urlSearchParams = []\<rparr>,
      cookies = map_of cs,
      wildcardMatch = None,
      locales = [],
      requestMethod = ''GET''\<rparr>"

text \<open>The state the constructor builds (lines 82 to 98) for a request without a query.\<close>

definition newRoutesMatcher :: "Headers \<Rightarrow> string \<Rightarrow> RoutesMatcher" where
  "newRoutesMatcher reqHeaders p =
     \<lparr>requestHeaders = reqHeaders, path = p, status = None,
      headers = \<lparr>normal = [], important = [], middlewareLocation = None\<rparr>,
      searchParams = [], body = BodyUndefined, checkPhaseCounter = 0, middlewareInvoked = []\<rparr>"

definition functionItem :: VercelBuildOutputItem where
  "functionItem = \<lparr>itemType = ''function'', entrypoint = ''index.js''\<rparr>"

definition middlewareItem :: VercelBuildOutputItem where
  "middlewareItem = \<lparr>itemType = ''middleware'', entrypoint = ''middleware.js''\<rparr>"

text \<open>What a closed example reports of a run: the result, the path, the status, the counter.\<close>

definition report ::
  "CheckRouteStatus outcome \<Rightarrow> (CheckRouteStatus \<times> string \<times> int option \<times> nat) option" where
  "report x = map_option (\<lambda>(r, s). (r, path s, status s, checkPhaseCounter s)) x"

section \<open>Properties\<close>

subsection \<open>The RSC corrections of applyRouteDest\<close>

text \<open>
  C5, as the spec states it: a computed path ending in \<open>/index.rsc\<close> reverts to the
  entering path whenever that path is neither the bare root \<open>/\<close> nor the prefetch-RSC
  index path. It fails for the entering path \<open>/index\<close>, which the code treats like the
  root: the rewrite to \<open>/index.rsc\<close>, an artifact here, stays.
\<close>

theorem rsc_index_kept_for_index_path:
  "path (snd (applyRouteDest (exampleUtils okResponse)
       (exampleConfig [] [(''/index.rsc'', functionItem)] [] ''/index'')
       ((rule ''^/'')\<lparr>dest := Some ''/index.rsc''\<rparr>) [Some ''/''] []
       (newRoutesMatcher [] ''/index''))) = ''/index.rsc''
   \<and> ''/index'' \<noteq> ''/''
   \<and> toLowerCase ''/index'' \<noteq> ''/__index.prefetch.rsc''"
  by code_simp

text \<open>
  C5, amended: when the computed path ends in \<open>/index.rsc\<close> and the entering path is none
  of \<open>/\<close>, \<open>/index\<close> (in any letter case) and the prefetch-RSC index path, the computed
  path is dropped and \<open>applyRouteDest\<close> goes on from the entering path; an entering path
  that is no \<open>.rsc\<close> path, no URL, and its own URL path is then the resulting path.
\<close>

theorem rsc_index_correction_reverts:
  assumes "truthy (dest route)"
    and "isRscIndex (processedDest E C (the (dest route)) m ks)"
    and "\<not> isPrevAbsoluteIndex (path s)"
    and "\<not> isPrevPrefetchRscIndex (path s)"
  shows "applyRouteDest E C route m ks s =
           (path s, resolveDest E C (rscExtensionStrip (buildOutput C) (path s)) s)
         \<and> (\<not> isRsc (path s) \<and> \<not> isUrl E (path s)
              \<and> pathname (newURL E (path s) (url C)) = path s
            \<longrightarrow> path (snd (applyRouteDest E C route m ks s)) = path s)"
proof -
  have eq: "applyRouteDest E C route m ks s =
           (path s, resolveDest E C (rscExtensionStrip (buildOutput C) (path s)) s)"
    using assms by (simp add: applyRouteDest_def rscIndexCorrection_def Let_def)
  then show ?thesis
    by (simp add: rscExtensionStrip_def resolveDest_def Let_def)
qed

theorem rsc_index_correction_reverts_witness:
  "path (snd (applyRouteDest (exampleUtils okResponse)
       (exampleConfig [] [(''/index.rsc'', functionItem)] [] ''/about'')
       ((rule ''^/'')\<lparr>dest := Some ''/index.rsc''\<rparr>) [Some ''/''] []
       (newRoutesMatcher [] ''/about''))) = ''/about''"
proof -
  let ?E = "exampleUtils okResponse"
  let ?C = "exampleConfig [] [(''/index.rsc'', functionItem)] [] ''/about''"
  let ?r = "(rule ''^/'')\<lparr>dest := Some ''/index.rsc''\<rparr>"
  let ?s = "newRoutesMatcher [] ''/about''"
  have 1: "truthy (dest ?r)" by code_simp
  have 2: "isRscIndex (processedDest ?E ?C (the (dest ?r)) [Some ''/''] [])" by code_simp
  have 3: "\<not> isPrevAbsoluteIndex (path ?s)" by code_simp
  have 4: "\<not> isPrevPrefetchRscIndex (path ?s)" by code_simp
  have 5: "\<not> isRsc (path ?s)" by code_simp
  have 6: "\<not> isUrl ?E (path ?s)" by code_simp
  have 7: "pathname (newURL ?E (path ?s) (url ?C)) = path ?s" by code_simp
  have 8: "path ?s = ''/about''" by code_simp
  have "path (snd (applyRouteDest ?E ?C ?r [Some ''/''] [] ?s)) = path ?s"
    using rsc_index_correction_reverts [OF 1 2 3 4] 5 6 7 by blast
  then show ?thesis by (simp only: 8)
qed

text \<open>
  C6 at the input where the code leaves the claim: the computed path \<open>/a.rsc/b.rsc\<close> ends
  in \<open>.rsc\<close>, not in \<open>.prefetch.rsc\<close>, and is no artifact; the code removes the leftmost
  \<open>.rsc\<close>, so the result keeps its extension and is not \<open>/a.rsc/b\<close>.
\<close>

theorem rsc_strip_removes_leftmost:
  "path (snd (applyRouteDest (exampleUtils okResponse)
       (exampleConfig [] [] [] ''/x'')
       ((rule ''^/x$'')\<lparr>dest := Some ''/a.rsc/b.rsc''\<rparr>) [Some ''/x''] []
       (newRoutesMatcher [] ''/x''))) = ''/a/b.rsc''"
  by code_simp

subsection \<open>What the steps of a rule leave alone\<close>

lemma processMiddlewareResp_frame:
  "checkPhaseCounter (snd (processMiddlewareResp E C resp s)) = checkPhaseCounter s"
  "middlewareInvoked (snd (processMiddlewareResp E C resp s)) = middlewareInvoked s"
  by (simp_all add: processMiddlewareResp_def Let_def split: prod.splits)

















subsection \<open>What every result of checkPhase satisfies\<close>

lemma runRouteMiddleware_fails:
  "runRouteMiddleware E C mp s = (False, s') \<Longrightarrow> status s' = Some 500"
  by (auto simp add: runRouteMiddleware_def Let_def split: if_splits option.splits)

lemma runRouteMiddleware_invoked:
  "middlewareInvoked (snd (runRouteMiddleware E C mp s)) = middlewareInvoked s
   \<or> (truthy mp \<and> middlewareInvoked (snd (runRouteMiddleware E C mp s)) = middlewareInvoked s @ [the mp])"
  by (simp add: runRouteMiddleware_def Let_def processMiddlewareResp_frame split: option.splits)

lemma runRouteMiddleware_distinct:
  assumes "runRouteMiddleware E C mp s = (ok, s')" and "distinct (middlewareInvoked s)"
    and "truthy mp \<Longrightarrow> the mp \<notin> set (middlewareInvoked s)"
  shows "distinct (middlewareInvoked s')"
  using runRouteMiddleware_invoked [of E C mp s] assms by auto

lemma applyRouteOverrides_invoked:
  "middlewareInvoked (applyRouteOverrides r s) = middlewareInvoked s"
  by (simp add: applyRouteOverrides_def)

lemma applyLocaleRedirects_invoked:
  "middlewareInvoked (applyLocaleRedirects E C r s) = middlewareInvoked s"
  by (simp add: applyLocaleRedirects_def Let_def split: option.splits list.splits)

lemma applyRouteHeaders_invoked:
  "middlewareInvoked (applyRouteHeaders E r m ks s) = middlewareInvoked s"
  by (simp add: applyRouteHeaders_def Let_def split: option.splits)

lemma applyRouteStatus_invoked:
  "middlewareInvoked (applyRouteStatus r s) = middlewareInvoked s"
  by (simp add: applyRouteStatus_def split: option.splits)

lemma applyRouteDest_invokedD:
  "applyRouteDest E C r m ks s = (pp, s') \<Longrightarrow> middlewareInvoked s' = middlewareInvoked s"
  by (auto simp add: applyRouteDest_def resolveDest_def Let_def split: if_splits)

lemmas invoked_frame = applyRouteOverrides_invoked applyLocaleRedirects_invoked
  applyRouteHeaders_invoked applyRouteStatus_invoked

lemma routeResult_not_Error: "routeResult r \<noteq> Error"
  by (simp add: routeResult_def)

lemma checkRouteCheck_shape:
  "(\<exists>ph. checkRouteCheck E C f phase route pp s = f ph s)
   \<or> (\<exists>t. checkRouteCheck E C f phase route pp s = Some (routeResult route, t)
          \<and> middlewareInvoked t = middlewareInvoked s)"
  unfolding checkRouteCheck_def by (cases "phase = miss") auto

lemma checkRouteCheck_post:
  assumes callee: "\<And>ph t r t'. f ph t = Some (r, t') \<Longrightarrow>
      (r = Done \<or> r = Error) \<and> (r = Error \<longrightarrow> status t' = Some 500)
      \<and> (distinct (middlewareInvoked t) \<longrightarrow> distinct (middlewareInvoked t'))"
    and res: "checkRouteCheck E C f phase route pp s = Some (r, s')"
  shows "(r = Error \<longrightarrow> status s' = Some 500)
      \<and> (distinct (middlewareInvoked s) \<longrightarrow> distinct (middlewareInvoked s'))"
  using checkRouteCheck_shape [of E C f phase route pp s]
proof (elim disjE exE conjE)
  fix ph assume "checkRouteCheck E C f phase route pp s = f ph s"
  then have "f ph s = Some (r, s')" using res by simp
  from callee [OF this] show ?thesis by simp
next
  fix t assume "checkRouteCheck E C f phase route pp s = Some (routeResult route, t)"
    and "middlewareInvoked t = middlewareInvoked s"
  then show ?thesis using res routeResult_not_Error [of route] by auto
qed

lemma checkRoute_post:
  assumes callee: "\<And>ph t r t'. f ph t = Some (r, t') \<Longrightarrow>
      (r = Done \<or> r = Error) \<and> (r = Error \<longrightarrow> status t' = Some 500)
      \<and> (distinct (middlewareInvoked t) \<longrightarrow> distinct (middlewareInvoked t'))"
    and res: "checkRoute E C f phase route s = Some (r, s')"
  shows "(r = Error \<longrightarrow> status s' = Some 500)
      \<and> (distinct (middlewareInvoked s) \<longrightarrow> distinct (middlewareInvoked s'))"
proof (cases "checkRouteMatch E C (getLocaleFriendlyRoute E C route phase) (phase = error) (phase = rewrite) s")
  case None
  then show ?thesis using res by (simp add: checkRoute_def)
next
  case (Some x)
  obtain m ks d where x: "x = (m, ks, d)" by (cases x) auto
  define rt where "rt = (getLocaleFriendlyRoute E C route phase)\<lparr>dest := d\<rparr>"
  show ?thesis
  proof (cases "truthy (middlewarePath rt) \<and> the (middlewarePath rt) \<in> set (middlewareInvoked s)")
    case True
    then show ?thesis using res Some x by (simp add: checkRoute_def rt_def)
  next
    case fresh: False
    define s2 where "s2 = applyLocaleRedirects E C rt (applyRouteOverrides rt s)"
    obtain ok s3 where mw: "runRouteMiddleware E C (middlewarePath rt) s2 = (ok, s3)"
      by (cases "runRouteMiddleware E C (middlewarePath rt) s2") auto
    have mi2: "middlewareInvoked s2 = middlewareInvoked s"
      by (simp add: s2_def invoked_frame)
    have d3: "distinct (middlewareInvoked s) \<Longrightarrow> distinct (middlewareInvoked s3)"
      using runRouteMiddleware_distinct [OF mw] fresh mi2 by auto
    obtain pp s6 where ds: "applyRouteDest E C rt m ks (applyRouteStatus rt (applyRouteHeaders E rt m ks s3)) = (pp, s6)"
      by (cases "applyRouteDest E C rt m ks (applyRouteStatus rt (applyRouteHeaders E rt m ks s3))") auto
    have mi6: "middlewareInvoked s6 = middlewareInvoked s3"
      using applyRouteDest_invokedD [OF ds] by (simp add: invoked_frame)
    have unfolded: "checkRoute E C f phase route s =
        (if \<not> ok then Some (Error, s3)
         else if body s3 \<noteq> BodyUndefined \<or> truthy (middlewareLocation (headers s3))
         then Some (Done, s3)
         else checkRouteCheck E C f phase rt pp s6)"
      using Some x fresh mw ds unfolding rt_def s2_def by (auto simp add: checkRoute_def Let_def)
    show ?thesis
    proof (cases "\<not> ok")
      case True
      then show ?thesis using unfolded res runRouteMiddleware_fails [of E C "middlewarePath rt" s2 s3] mw d3
        by auto
    next
      case okT: False
      show ?thesis
      proof (cases "body s3 \<noteq> BodyUndefined \<or> truthy (middlewareLocation (headers s3))")
        case True
        then show ?thesis using unfolded res okT d3 by auto
      next
        case False
        then have "checkRouteCheck E C f phase rt pp s6 = Some (r, s')"
          using unfolded res okT by simp
        from checkRouteCheck_post [of f E C phase rt pp s6 r s', OF callee this]
        show ?thesis using mi6 d3 by simp
      qed
    qed
  qed
qed

lemma checkRoutes_post:
  assumes callee: "\<And>ph t r t'. f ph t = Some (r, t') \<Longrightarrow>
      (r = Done \<or> r = Error) \<and> (r = Error \<longrightarrow> status t' = Some 500)
      \<and> (distinct (middlewareInvoked t) \<longrightarrow> distinct (middlewareInvoked t'))"
  shows "checkRoutes E C f phase rs s = Some (x, s') \<Longrightarrow>
      (x = ReturnError \<longrightarrow> status s' = Some 500)
      \<and> (distinct (middlewareInvoked s) \<longrightarrow> distinct (middlewareInvoked s'))"
proof (induction rs arbitrary: s)
  case Nil
  then show ?case by simp
next
  case (Cons route rest)
  obtain r s1 where step: "checkRoute E C f phase route s = Some (r, s1)"
    using Cons.prems by (cases "checkRoute E C f phase route s") auto
  note p1 = checkRoute_post [of f E C phase route s r s1, OF callee step]
  show ?case
  proof (cases "r = Error \<or> r = Done")
    case True
    then show ?thesis using Cons.prems step p1 by (auto split: if_splits)
  next
    case False
    then have "checkRoutes E C f phase rest s1 = Some (x, s')"
      using Cons.prems step by simp
    from Cons.IH [OF this] show ?thesis using p1 by simp
  qed
qed

lemma checkPhaseNext_post:
  assumes callee: "\<And>ph t r t'. f ph t = Some (r, t') \<Longrightarrow>
      (r = Done \<or> r = Error) \<and> (r = Error \<longrightarrow> status t' = Some 500)
      \<and> (distinct (middlewareInvoked t) \<longrightarrow> distinct (middlewareInvoked t'))"
    and res: "checkPhaseNext E C f phase sc s = Some (r, s')"
  shows "(r = Done \<or> r = Error) \<and> (r = Error \<longrightarrow> status s' = Some 500)
      \<and> (distinct (middlewareInvoked s) \<longrightarrow> distinct (middlewareInvoked s'))"
proof -
  have mi: "middlewareInvoked (missStatus phase b (trailingSlashFixup C (localeFixup E C phase s)))
      = middlewareInvoked s" for b
    by (simp add: missStatus_def trailingSlashFixup_def localeFixup_def Let_def)
  show ?thesis
  proof (cases "phase = hit \<or> isUrl E (path s) \<or> hhas (normal (headers s)) ''location''
         \<or> (case body s of BodyStream _ \<Rightarrow> True | _ \<Rightarrow> False)")
    case True
    then show ?thesis using res by (simp add: checkPhaseNext_def)
  next
    case False
    then obtain ph b where "f ph (missStatus phase b (trailingSlashFixup C (localeFixup E C phase s))) = Some (r, s')"
      using res by (simp add: checkPhaseNext_def Let_def)
    from callee [OF this] show ?thesis using mi by simp
  qed
qed

lemma checkPhase_post:
  "checkPhase E C fuel phase s = Some (r, s') \<Longrightarrow>
     (r = Done \<or> r = Error) \<and> (r = Error \<longrightarrow> status s' = Some 500)
     \<and> (distinct (middlewareInvoked s) \<longrightarrow> distinct (middlewareInvoked s'))"
proof (induction fuel arbitrary: phase s r s')
  case 0
  then show ?case by simp
next
  case (Suc fuel)
  show ?case
  proof (cases "50 \<le> checkPhaseCounter s")
    case True
    then show ?thesis using Suc.prems by (auto simp add: checkPhaseBody_def)
  next
    case False
    define s0 where "s0 = s\<lparr>checkPhaseCounter := checkPhaseCounter s + 1, middlewareInvoked := []\<rparr>"
    define f where "f = checkPhase E C fuel"
    have callee: "\<And>ph t r t'. f ph t = Some (r, t') \<Longrightarrow>
      (r = Done \<or> r = Error) \<and> (r = Error \<longrightarrow> status t' = Some 500)
      \<and> (distinct (middlewareInvoked t) \<longrightarrow> distinct (middlewareInvoked t'))"
      unfolding f_def using Suc.IH by blast
    obtain x s1 where loop: "checkRoutes E C f phase (routes C phase) s0 = Some (x, s1)"
      using Suc.prems False unfolding f_def s0_def
      by (cases "checkRoutes E C (checkPhase E C fuel) phase (routes C phase)
            (s\<lparr>checkPhaseCounter := checkPhaseCounter s + 1, middlewareInvoked := []\<rparr>)")
         (auto simp add: checkPhaseBody_def)
    have body: "checkPhase E C (Suc fuel) phase s =
        (case x of ReturnError \<Rightarrow> Some (Error, s1)
         | Break \<Rightarrow> checkPhaseNext E C f phase False s1
         | Exhausted \<Rightarrow> checkPhaseNext E C f phase True s1)"
      using False loop unfolding f_def s0_def by (simp add: checkPhaseBody_def)
    have d1: "distinct (middlewareInvoked s1)" and e1: "x = ReturnError \<Longrightarrow> status s1 = Some 500"
      using checkRoutes_post [of f E C phase "routes C phase" s0 x s1, OF callee loop]
      by (simp_all add: s0_def)
    show ?thesis
    proof (cases "x = ReturnError")
      case True
      then show ?thesis using body Suc.prems d1 e1 by simp
    next
      case False
      then have "checkPhaseNext E C f phase (x = Exhausted) s1 = Some (r, s')"
        using body Suc.prems by (cases x) simp_all
      from checkPhaseNext_post [of f E C phase "x = Exhausted" s1 r s', OF callee this]
      show ?thesis using d1 by simp
    qed
  qed
qed

subsection \<open>More fuel does not change a result\<close>









subsection \<open>Termination and the loop guard\<close>


lemma rewrite_cycle_ends_with_500:
  "report (run (exampleUtils okResponse)
       (exampleConfig [(rule ''^/a$'')\<lparr>dest := Some ''/b'', check := True\<rparr>,
                       (rule ''^/b$'')\<lparr>dest := Some ''/a'', check := True\<rparr>] [] [] ''/a'')
       none (newRoutesMatcher [] ''/a''))
   = Some (Error, ''/a'', Some 500, 51)"
  by code_simp




subsection \<open>The status of an error result\<close>

text \<open>
  C10, as stated, has the status 500 whenever \<open>run\<close> returns \<open>error\<close>. A locale redirect
  that is pending when a middleware answers 500 breaks it: \<open>checkPhase\<close> returns \<open>error\<close>
  with status 500, and the last step of \<open>run\<close> replaces a status of 400 or more by 307
  because a \<open>location\<close> header is set.
\<close>

theorem error_after_locale_redirect_is_307:
  "report (run (exampleUtils \<lparr>respStatus = 500, respHeaders = [], respBody = BodyNull\<rparr>)
       (exampleConfig
          [(rule ''^/$'')\<lparr>routeLocale := Some \<lparr>redirect = Some (map_of [(''fr'', ''/fr'')]),
                                                  cookie = Some ''NEXT_LOCALE''\<rparr>,
                          continue := True\<rparr>,
           (rule ''^/$'')\<lparr>middlewarePath := Some ''middleware'', continue := True\<rparr>]
          [(''middleware'', middlewareItem)] [(''NEXT_LOCALE'', ''fr'')] ''/'')
       none (newRoutesMatcher [] ''/''))
   = Some (Error, ''/'', Some 307, 1)"
  by code_simp

text \<open>
  C10, amended: whenever \<open>checkPhase\<close> returns \<open>error\<close> the status is 500; whenever \<open>run\<close>
  returns \<open>error\<close> the status is 500, unless a \<open>location\<close> header is pending, and then
  it is 307.
\<close>

theorem error_status_is_500:
  "(checkPhase E C fuel phase s = Some (Error, s') \<longrightarrow> status s' = Some 500)
   \<and> (run E C phase s = Some (Error, s') \<longrightarrow>
        status s' = (if hhas (normal (headers s')) ''location'' then Some 307 else Some 500))"
proof (intro conjI impI)
  assume "checkPhase E C fuel phase s = Some (Error, s')"
  from checkPhase_post [OF this] show "status s' = Some 500" by simp
next
  assume r: "run E C phase s = Some (Error, s')"
  obtain x where 1: "checkPhase E C 51 phase (s\<lparr>checkPhaseCounter := 0\<rparr>) = Some x"
    using r unfolding run_def
    by (cases "checkPhase E C 51 phase (s\<lparr>checkPhaseCounter := 0\<rparr>)") simp_all
  obtain r1 s1 where x: "x = (r1, s1)" by (cases x)
  define promote where "promote = (hhas (normal (headers s1)) ''location''
      \<and> (case status s1 of None \<Rightarrow> True | Some st \<Rightarrow> st = 0 \<or> st < 300 \<or> st \<ge> 400))"
  have eq: "run E C phase s = Some (r1, if promote then s1\<lparr>status := Some 307\<rparr> else s1)"
    unfolding run_def 1 x promote_def by simp
  then have r1: "r1 = Error" and s': "s' = (if promote then s1\<lparr>status := Some 307\<rparr> else s1)"
    using r by simp_all
  have st: "status s1 = Some 500"
    using checkPhase_post [of E C 51 phase "s\<lparr>checkPhaseCounter := 0\<rparr>" Error s1] 1 x r1
    by simp
  have p: "promote = hhas (normal (headers s1)) ''location''"
    by (simp add: promote_def st)
  show "status s' = (if hhas (normal (headers s')) ''location'' then Some 307 else Some 500)"
    by (cases promote) (simp_all add: s' st p [symmetric])
qed

text \<open>An instance: a rule whose middleware is no artifact.\<close>

theorem error_status_is_500_witness:
  "run (exampleUtils okResponse)
       (exampleConfig [(rule ''^/a$'')\<lparr>middlewarePath := Some ''middleware''\<rparr>] [] [] ''/a'')
       none (newRoutesMatcher [] ''/a'')
     = Some (Error, (newRoutesMatcher [] ''/a'')\<lparr>checkPhaseCounter := 1, status := Some 500\<rparr>)
   \<and> status ((newRoutesMatcher [] ''/a'')\<lparr>checkPhaseCounter := 1, status := Some 500\<rparr>) = Some 500"
proof -
  let ?s' = "(newRoutesMatcher [] ''/a'')\<lparr>checkPhaseCounter := 1, status := Some 500\<rparr>"
  have 1: "run (exampleUtils okResponse)
       (exampleConfig [(rule ''^/a$'')\<lparr>middlewarePath := Some ''middleware''\<rparr>] [] [] ''/a'')
       none (newRoutesMatcher [] ''/a'') = Some (Error, ?s')"
    by code_simp
  have 2: "\<not> hhas (normal (headers ?s')) ''location''" by code_simp
  show ?thesis
    using error_status_is_500 [of "exampleUtils okResponse"
        "exampleConfig [(rule ''^/a$'')\<lparr>middlewarePath := Some ''middleware''\<rparr>] [] [] ''/a''"
        0 none "newRoutesMatcher [] ''/a''" ?s'] 1 2
    by metis
qed

subsection \<open>Two runs from the same input state\<close>



subsection \<open>A middleware that is no artifact\<close>

lemma getLocaleFriendlyRoute_middlewarePath:
  "middlewarePath (getLocaleFriendlyRoute E C route phase) = middlewarePath route"
  by (simp add: getLocaleFriendlyRoute_def)

lemma applyRouteOverrides_path: "path (applyRouteOverrides r s) = path s"
  by (simp add: applyRouteOverrides_def)

lemma applyLocaleRedirects_path: "path (applyLocaleRedirects E C r s) = path s"
  by (simp add: applyLocaleRedirects_def Let_def split: option.splits list.splits)

text \<open>
  C2: for a rule with a middleware path at which the artifact map has no entry, or an entry
  of another type, \<open>runRouteMiddleware\<close> sets the status to 500 and fails; when the rule
  matches (and the path is not among the invoked ones), \<open>checkRoute\<close> returns \<open>error\<close>,
  the loop over the phase's rules is left with it, and the state is the one after the
  rule's overrides and locale redirect with status 500: the rule's headers, status and
  destination are not applied, path and search parameters are those before the rule.
\<close>

theorem missing_middleware_aborts:
  assumes mp: "truthy (middlewarePath rawRoute)"
    and absent: "\<forall>item. buildOutput C (the (middlewarePath rawRoute)) = Some item
                   \<longrightarrow> itemType item \<noteq> ''middleware''"
  shows "runRouteMiddleware E C (middlewarePath rawRoute) s = (False, s\<lparr>status := Some 500\<rparr>)
    \<and> (checkRouteMatch E C (getLocaleFriendlyRoute E C rawRoute phase)
           (phase = error) (phase = rewrite) s = Some (m, ks, d)
        \<and> the (middlewarePath rawRoute) \<notin> set (middlewareInvoked s)
       \<longrightarrow> (let route = (getLocaleFriendlyRoute E C rawRoute phase)\<lparr>dest := d\<rparr>;
                 s' = (applyLocaleRedirects E C route (applyRouteOverrides route s))
                        \<lparr>status := Some 500\<rparr>
             in checkRoute E C checkPhase' phase rawRoute s = Some (Error, s')
                \<and> checkRoutes E C checkPhase' phase (rawRoute # rest) s = Some (ReturnError, s')
                \<and> path s' = path s \<and> searchParams s' = searchParams s
                \<and> status s' = Some 500))"
proof -
  have fail: "runRouteMiddleware E C (middlewarePath rawRoute) t = (False, t\<lparr>status := Some 500\<rparr>)" for t
    using mp absent by (auto simp add: runRouteMiddleware_def Let_def split: option.splits)
  have "checkRoute E C checkPhase' phase rawRoute s
      = Some (Error, (applyLocaleRedirects E C ((getLocaleFriendlyRoute E C rawRoute phase)\<lparr>dest := d\<rparr>)
           (applyRouteOverrides ((getLocaleFriendlyRoute E C rawRoute phase)\<lparr>dest := d\<rparr>) s))
             \<lparr>status := Some 500\<rparr>)"
    if "checkRouteMatch E C (getLocaleFriendlyRoute E C rawRoute phase)
           (phase = error) (phase = rewrite) s = Some (m, ks, d)"
      and "the (middlewarePath rawRoute) \<notin> set (middlewareInvoked s)"
    using that fail by (simp add: checkRoute_def Let_def getLocaleFriendlyRoute_middlewarePath)
  moreover have "searchParams (applyLocaleRedirects E C r (applyRouteOverrides r s)) = searchParams s" for r
    by (simp add: applyLocaleRedirects_def applyRouteOverrides_def Let_def split: option.splits list.splits)
  ultimately show ?thesis
    using fail by (simp add: Let_def applyLocaleRedirects_path applyRouteOverrides_path)
qed

text \<open>An instance: the artifact at the middleware path is a function.\<close>

theorem missing_middleware_aborts_witness:
  "checkRoute (exampleUtils okResponse)
     (exampleConfig [] [(''middleware'', functionItem)] [] ''/a'')
     (checkPhase (exampleUtils okResponse)
        (exampleConfig [] [(''middleware'', functionItem)] [] ''/a'') 0) none
     ((rule ''^/a$'')\<lparr>middlewarePath := Some ''middleware'', dest := Some ''/b'',
                      routeStatus := Some 200, routeHeaders := Some [(''x-test'', ''a'')]\<rparr>)
     (newRoutesMatcher [] ''/a'')
   = Some (Error, (newRoutesMatcher [] ''/a'')\<lparr>status := Some 500\<rparr>)"
proof -
  let ?E = "exampleUtils okResponse"
  let ?C = "exampleConfig [] [(''middleware'', functionItem)] [] ''/a''"
  let ?r = "(rule ''^/a$'')\<lparr>middlewarePath := Some ''middleware'', dest := Some ''/b'',
                      routeStatus := Some 200, routeHeaders := Some [(''x-test'', ''a'')]\<rparr>"
  let ?s = "newRoutesMatcher [] ''/a''"
  have 1: "truthy (middlewarePath ?r)" by code_simp
  have 2: "\<forall>item. buildOutput ?C (the (middlewarePath ?r)) = Some item
                   \<longrightarrow> itemType item \<noteq> ''middleware''"
    by (simp add: exampleConfig_def rule_def functionItem_def)
  have 3: "checkRouteMatch ?E ?C (getLocaleFriendlyRoute ?E ?C ?r none)
           (none = error) (none = rewrite) ?s = Some ([Some ''/a''], [], Some ''/b'')"
    by code_simp
  have 4: "the (middlewarePath ?r) \<notin> set (middlewareInvoked ?s)" by code_simp
  have 5: "(applyLocaleRedirects ?E ?C ((getLocaleFriendlyRoute ?E ?C ?r none)\<lparr>dest := Some ''/b''\<rparr>)
             (applyRouteOverrides ((getLocaleFriendlyRoute ?E ?C ?r none)\<lparr>dest := Some ''/b''\<rparr>) ?s))
           \<lparr>status := Some 500\<rparr> = ?s\<lparr>status := Some 500\<rparr>"
    by code_simp
  show ?thesis
    using missing_middleware_aborts [OF 1 2, where E = ?E and phase = none and s = ?s
        and m = "[Some ''/a'']" and ks = "[]" and d = "Some ''/b''" and checkPhase' = "checkPhase ?E ?C 0"
        and rest = "[]"] 3 4 5
    by (simp only: Let_def) simp
qed

subsection \<open>One invocation of a middleware per phase\<close>






subsection \<open>Header collections\<close>

lemma hget_hset: "hget (hset h k v) k' = (if toLowerCase k' = toLowerCase k then Some v else hget h k')"
  by (simp add: hget_def hset_def update_conv')


lemma hget_applyHeaders_snoc:
  "hget (applyHeaders E t (hsrc @ [(k', v)]) pm) k =
     (if toLowerCase k = toLowerCase k'
      then Some (case pm of None \<Rightarrow> v | Some (m, ks) \<Rightarrow> applyPCREMatches E v m ks)
      else hget (applyHeaders E t hsrc pm) k)"
  by (simp add: applyHeaders_def hget_hset)

lemma hget_applyHeaders_other:
  "toLowerCase k \<notin> set (map (\<lambda>p. toLowerCase (fst p)) hsrc) \<Longrightarrow>
   hget (applyHeaders E t hsrc pm) k = hget t k"
proof (induction hsrc rule: rev_induct)
  case Nil
  then show ?case by (simp add: applyHeaders_def)
next
  case (snoc x xs)
  obtain k' v where x: "x = (k', v)" by (cases x)
  show ?case using snoc by (simp add: x hget_applyHeaders_snoc)
qed

lemma hget_applyHeaders_member:
  "(k1, a) \<in> set hsrc \<Longrightarrow> distinct (map (\<lambda>p. toLowerCase (fst p)) hsrc) \<Longrightarrow>
   toLowerCase k1 = toLowerCase k \<Longrightarrow>
   hget (applyHeaders E t hsrc (Some (m, ks))) k = Some (applyPCREMatches E a m ks)"
proof (induction hsrc rule: rev_induct)
  case Nil
  then show ?case by simp
next
  case (snoc x xs)
  obtain k' v where x: "x = (k', v)" by (cases x)
  show ?case
  proof (cases "(k1, a) = (k', v)")
    case True
    then show ?thesis using snoc.prems by (simp add: x hget_applyHeaders_snoc)
  next
    case False
    then have mem: "(k1, a) \<in> set xs" using snoc.prems x by auto
    have inxs: "toLowerCase k1 \<in> (\<lambda>p. toLowerCase (fst p)) ` set xs"
      using mem by force
    have notin: "toLowerCase k' \<notin> (\<lambda>p. toLowerCase (fst p)) ` set xs"
      using snoc.prems(2) x by simp
    have "toLowerCase k \<noteq> toLowerCase k'"
      using inxs notin snoc.prems(3) by metis
    moreover have "distinct (map (\<lambda>p. toLowerCase (fst p)) xs)" using snoc.prems(2) by simp
    ultimately show ?thesis
      using snoc.IH [OF mem] snoc.prems(3) by (simp add: x hget_applyHeaders_snoc)
  qed
qed

text \<open>
  C3: \<open>applyRouteHeaders\<close> merges the capture-substituted headers of a rule into the
  normal collection, and into the important collection exactly when the rule is marked
  important; a key the rule sets reads as the substituted value afterwards. When an
  important rule sets a key and a later rule that is not important sets headers too, the
  final value of the key, important before normal, is the important rule's.
\<close>

theorem important_header_wins:
  "(routeHeaders route = Some hs \<longrightarrow>
      headers (applyRouteHeaders E route m ks s) =
        (headers s)\<lparr>normal := applyHeaders E (normal (headers s)) hs (Some (m, ks)),
                    important := (if routeImportant route
                                  then applyHeaders E (important (headers s)) hs (Some (m, ks))
                                  else important (headers s))\<rparr>)
   \<and> (routeHeaders route = Some hs \<and> (k1, a) \<in> set hs
        \<and> distinct (map (\<lambda>p. toLowerCase (fst p)) hs) \<and> toLowerCase k1 = toLowerCase k \<longrightarrow>
      hget (normal (headers (applyRouteHeaders E route m ks s))) k
        = Some (applyPCREMatches E a m ks)
      \<and> hget (important (headers (applyRouteHeaders E route m ks s))) k
        = (if routeImportant route then Some (applyPCREMatches E a m ks)
           else hget (important (headers s)) k))
   \<and> (routeHeaders route = Some hs \<and> (k1, a) \<in> set hs
        \<and> distinct (map (\<lambda>p. toLowerCase (fst p)) hs) \<and> toLowerCase k1 = toLowerCase k
        \<and> routeImportant route \<and> \<not> routeImportant later \<longrightarrow>
      finalHeader (headers (applyRouteHeaders E later m' ks'
                              (applyRouteHeaders E route m ks s))) k
        = Some (applyPCREMatches E a m ks))"
proof (intro conjI impI)
  assume "routeHeaders route = Some hs"
  then show "headers (applyRouteHeaders E route m ks s) =
        (headers s)\<lparr>normal := applyHeaders E (normal (headers s)) hs (Some (m, ks)),
                    important := (if routeImportant route
                                  then applyHeaders E (important (headers s)) hs (Some (m, ks))
                                  else important (headers s))\<rparr>"
    by (simp add: applyRouteHeaders_def Let_def)
next
  assume a: "routeHeaders route = Some hs \<and> (k1, a) \<in> set hs
        \<and> distinct (map (\<lambda>p. toLowerCase (fst p)) hs) \<and> toLowerCase k1 = toLowerCase k"
  then have mem: "hget (applyHeaders E t hs (Some (m, ks))) k = Some (applyPCREMatches E a m ks)" for t
    using hget_applyHeaders_member [of k1 a hs k E t m ks] by simp
  from a show "hget (normal (headers (applyRouteHeaders E route m ks s))) k
        = Some (applyPCREMatches E a m ks)"
    by (simp add: applyRouteHeaders_def Let_def mem)
  from a show "hget (important (headers (applyRouteHeaders E route m ks s))) k
        = (if routeImportant route then Some (applyPCREMatches E a m ks)
           else hget (important (headers s)) k)"
    by (simp add: applyRouteHeaders_def Let_def mem)
next
  assume a: "routeHeaders route = Some hs \<and> (k1, a) \<in> set hs
        \<and> distinct (map (\<lambda>p. toLowerCase (fst p)) hs) \<and> toLowerCase k1 = toLowerCase k
        \<and> routeImportant route \<and> \<not> routeImportant later"
  then have mem: "hget (applyHeaders E t hs (Some (m, ks))) k = Some (applyPCREMatches E a m ks)" for t
    using hget_applyHeaders_member [of k1 a hs k E t m ks] by simp
  from a have 1: "hget (important (headers (applyRouteHeaders E route m ks s))) k
        = Some (applyPCREMatches E a m ks)"
    by (simp add: applyRouteHeaders_def Let_def mem)
  have 2: "important (headers (applyRouteHeaders E later m' ks' t)) = important (headers t)" for t
    using a by (simp add: applyRouteHeaders_def Let_def split: option.splits)
  show "finalHeader (headers (applyRouteHeaders E later m' ks'
                              (applyRouteHeaders E route m ks s))) k
        = Some (applyPCREMatches E a m ks)"
    by (simp add: finalHeader_def 1 2)
qed

text \<open>An instance: \<open>x-test: a\<close>, important, then \<open>x-test: b\<close>.\<close>

theorem important_header_wins_witness:
  "finalHeader (headers
     (applyRouteHeaders (exampleUtils okResponse) ((rule ''^/a$'')\<lparr>routeHeaders := Some [(''x-test'', ''b'')]\<rparr>)
        [Some ''/a''] []
        (applyRouteHeaders (exampleUtils okResponse)
           ((rule ''^/a$'')\<lparr>routeHeaders := Some [(''x-test'', ''a'')], routeImportant := True\<rparr>)
           [Some ''/a''] [] (newRoutesMatcher [] ''/a'')))) ''x-test'' = Some ''a''"
proof -
  let ?E = "exampleUtils okResponse"
  let ?r1 = "(rule ''^/a$'')\<lparr>routeHeaders := Some [(''x-test'', ''a'')], routeImportant := True\<rparr>"
  let ?r2 = "(rule ''^/a$'')\<lparr>routeHeaders := Some [(''x-test'', ''b'')]\<rparr>"
  have 1: "routeHeaders ?r1 = Some [(''x-test'', ''a'')] \<and> (''x-test'', ''a'') \<in> set [(''x-test'', ''a'')]
        \<and> distinct (map (\<lambda>p. toLowerCase (fst p)) [(''x-test'', ''a'')]) \<and> toLowerCase ''x-test'' = toLowerCase ''x-test''
        \<and> routeImportant ?r1 \<and> \<not> routeImportant ?r2"
    by (simp add: rule_def)
  have 2: "applyPCREMatches ?E ''a'' [Some ''/a''] [] = ''a''" by (simp add: exampleUtils_def)
  show ?thesis
    using important_header_wins [where route = ?r1 and hs = "[(''x-test'', ''a'')]"
        and ?k1.0 = "''x-test''" and a = "''a''" and k = "''x-test''" and later = ?r2 and E = ?E
        and m = "[Some ''/a'']" and ks = "[]" and m' = "[Some ''/a'']" and ks' = "[]"
        and s = "newRoutesMatcher [] ''/a''"] 1 2
    by metis
qed

subsection \<open>Locale redirects\<close>




subsection \<open>The rewrite directive of a middleware\<close>








end
